theory Spec2Isabelle
  imports Complex_Main "HOL-Library.Product_Lexorder"
begin

section \<open>Data model\<close>

text \<open>
  The index of the table holds calendar dates (the provider reports monthly and quarterly
  observations at midnight), written (year, month, day) and compared lexicographically,
  which is the chronological order of \<^verbatim>\<open>datetime\<close>.
\<close>

type_synonym date = "nat \<times> nat \<times> nat"

text \<open>
  A cell of the table is a float. \<^verbatim>\<open>NaN\<close> is pandas' marker of a missing value; the two
  infinities arise from a division by zero. Finite values are taken as real numbers:
  rounding is not modelled.
\<close>

datatype cell = NaN | PosInf | NegInf | Num real

datatype py_error = IndexError | ZeroDivisionError

text \<open>
  A row of the data frame: its index entry and its four columns, in the order in which
  \<^verbatim>\<open>load_economic_data\<close> requests them (GFDEBTN, FEDFUNDS, GDP, CPIAUCSL) and names
  them, position by position.
\<close>

record row =
  date :: date
  National_Debt :: cell
  Fed_Funds_Rate :: cell
  GDP :: cell
  Inflation :: cell

type_synonym table = "row list"

definition index :: "table \<Rightarrow> date list" where
  "index data = map date data"

definition year :: "date \<Rightarrow> nat" where
  "year d = fst d"

text \<open>\<^verbatim>\<open>xs[-1]\<close> and \<^verbatim>\<open>.iloc[-1]\<close>: the last element, IndexError on an empty sequence.\<close>

definition last_item :: "'a list \<Rightarrow> py_error + 'a" where
  "last_item xs = (if xs = [] then Inl IndexError else Inr (last xs))"

section \<open>The chart\<close>

record line =
  line_color :: string
  line_width :: nat
  line_dash :: "string option"

record trace =
  trace_x :: "date list"
  trace_y :: "cell list"
  trace_name :: string
  trace_line :: line
  trace_yaxis :: string

record vrect =
  vrect_x0 :: date
  vrect_x1 :: date
  vrect_fillcolor :: string
  vrect_opacity :: real
  vrect_line_width :: nat

record axis =
  axis_title_text :: string
  axis_title_font_color :: string
  axis_tickfont_color :: string
  axis_overlaying :: "string option"
  axis_side :: string

record legend =
  legend_orientation :: string
  legend_yanchor :: string
  legend_y :: real
  legend_xanchor :: string
  legend_x :: real

record margin =
  margin_l :: nat
  margin_r :: nat
  margin_t :: nat
  margin_b :: nat

record layout =
  layout_title :: string
  layout_xaxis_title :: string
  layout_yaxis :: axis
  layout_yaxis2 :: axis
  layout_hovermode :: string
  layout_legend :: legend
  layout_height :: nat
  layout_margin :: margin

record figure =
  fig_traces :: "trace list"
  fig_shapes :: "vrect list"
  fig_layout :: "layout option"

definition Figure :: figure where
  "Figure = \<lparr>fig_traces = [], fig_shapes = [], fig_layout = None\<rparr>"

definition add_trace :: "trace \<Rightarrow> figure \<Rightarrow> figure" where
  "add_trace t fig = fig\<lparr>fig_traces := fig_traces fig @ [t]\<rparr>"

definition add_vrect :: "vrect \<Rightarrow> figure \<Rightarrow> figure" where
  "add_vrect v fig = fig\<lparr>fig_shapes := fig_shapes fig @ [v]\<rparr>"

definition update_layout :: "layout \<Rightarrow> figure \<Rightarrow> figure" where
  "update_layout l fig = fig\<lparr>fig_layout := Some l\<rparr>"

definition Scatter :: "date list \<Rightarrow> cell list \<Rightarrow> string \<Rightarrow> line \<Rightarrow> string \<Rightarrow> trace" where
  "Scatter xs ys nm style ax =
     \<lparr>trace_x = xs, trace_y = ys, trace_name = nm, trace_line = style, trace_yaxis = ax\<rparr>"

definition recessions :: "(date \<times> date) list" where
  "recessions =
     [((1973, 11, 1), (1975, 3, 1)),
      ((1980, 1, 1), (1980, 7, 1)),
      ((1981, 7, 1), (1982, 11, 1)),
      ((1990, 7, 1), (1991, 3, 1)),
      ((2001, 3, 1), (2001, 11, 1)),
      ((2007, 12, 1), (2009, 6, 1)),
      ((2020, 2, 1), (2020, 4, 1))]"

definition recession_band :: "date \<times> date \<Rightarrow> vrect" where
  "recession_band rec =
     \<lparr>vrect_x0 = fst rec, vrect_x1 = snd rec, vrect_fillcolor = ''gray'',
      vrect_opacity = 2 / 10, vrect_line_width = 0\<rparr>"

definition chart_layout :: layout where
  "chart_layout =
     \<lparr>layout_title = ''US Economic Indicators (1970-Present)'',
      layout_xaxis_title = ''Year'',
      layout_yaxis =
        \<lparr>axis_title_text = ''Debt & GDP (Billions $)'', axis_title_font_color = ''royalblue'',
         axis_tickfont_color = ''royalblue'', axis_overlaying = None, axis_side = ''left''\<rparr>,
      layout_yaxis2 =
        \<lparr>axis_title_text = ''Interest & Inflation (%)'', axis_title_font_color = ''crimson'',
         axis_tickfont_color = ''crimson'', axis_overlaying = Some ''y'', axis_side = ''right''\<rparr>,
      layout_hovermode = ''x unified'',
      layout_legend =
        \<lparr>legend_orientation = ''h'', legend_yanchor = ''bottom'', legend_y = 102 / 100,
         legend_xanchor = ''right'', legend_x = 1\<rparr>,
      layout_height = 600,
      layout_margin = \<lparr>margin_l = 50, margin_r = 50, margin_t = 80, margin_b = 50\<rparr>\<rparr>"

text \<open>
  The body shared by \<^verbatim>\<open>create_combined_chart\<close> and \<^verbatim>\<open>create_animated_chart\<close>: four traces
  over the whole index and the whole columns, the recession bands, the layout.
\<close>

definition create_combined_chart :: "table \<Rightarrow> figure" where
  "create_combined_chart data =
     update_layout chart_layout
       (fold (\<lambda>rec. add_vrect (recession_band rec)) recessions
          (add_trace (Scatter (index data) (map Inflation data) ''Inflation''
                        \<lparr>line_color = ''darkorange'', line_width = 2, line_dash = None\<rparr> ''y2'')
          (add_trace (Scatter (index data) (map Fed_Funds_Rate data) ''Fed Funds Rate''
                        \<lparr>line_color = ''crimson'', line_width = 2, line_dash = None\<rparr> ''y2'')
          (add_trace (Scatter (index data) (map GDP data) ''GDP''
                        \<lparr>line_color = ''forestgreen'', line_width = 2, line_dash = Some ''dot''\<rparr> ''y1'')
          (add_trace (Scatter (index data) (map National_Debt data) ''National Debt''
                        \<lparr>line_color = ''royalblue'', line_width = 2, line_dash = None\<rparr> ''y1'')
             Figure)))))"

text \<open>
  \<^verbatim>\<open>create_animated_chart(data, end_date=None)\<close>: an omitted cutoff is replaced by
  \<^verbatim>\<open>data.index[-1]\<close>, which raises on an empty index. The cutoff is not read again: the
  rest of the function is the body of \<^verbatim>\<open>create_combined_chart\<close>, line for line.
\<close>

definition default_end_date :: "table \<Rightarrow> date option \<Rightarrow> py_error + date" where
  "default_end_date data end_date =
     (case end_date of None \<Rightarrow> last_item (index data) | Some d \<Rightarrow> Inr d)"

definition create_animated_chart :: "table \<Rightarrow> date option \<Rightarrow> py_error + figure" where
  "create_animated_chart data end_date =
     (case default_end_date data end_date of
        Inl e \<Rightarrow> Inl e
      | Inr end_date' \<Rightarrow> Inr (create_combined_chart data))"

text \<open>
  \<^verbatim>\<open>data[data.index <= date]\<close>: the rows up to a date. The animation loop selects the
  rows for its metrics so; the renderer has no such selection.
\<close>

definition truncated :: "table \<Rightarrow> date \<Rightarrow> table" where
  "truncated data cutoff = filter (\<lambda>r. date r \<le> cutoff) data"

section \<open>The data pipeline\<close>

definition isna :: "cell \<Rightarrow> bool" where
  "isna c = (c = NaN)"

text \<open>
  Float arithmetic on cells, as far as \<^verbatim>\<open>pct_change(periods=12) * 100\<close> needs it: the
  quotient of two cells, and a cell minus or times a finite constant. NaN propagates,
  a finite nonzero value over zero is an infinity, zero over zero is NaN.
\<close>

fun cdiv :: "cell \<Rightarrow> cell \<Rightarrow> cell" where
  "cdiv (Num a) (Num b) =
     (if b = 0 then (if a = 0 then NaN else if 0 < a then PosInf else NegInf)
      else Num (a / b))"
| "cdiv (Num a) PosInf = Num 0"
| "cdiv (Num a) NegInf = Num 0"
| "cdiv PosInf (Num b) = (if 0 \<le> b then PosInf else NegInf)"
| "cdiv NegInf (Num b) = (if 0 \<le> b then NegInf else PosInf)"
| "cdiv a b = NaN"

fun cminus :: "cell \<Rightarrow> real \<Rightarrow> cell" where
  "cminus (Num a) k = Num (a - k)"
| "cminus c k = c"

fun ctimes :: "cell \<Rightarrow> real \<Rightarrow> cell" where
  "ctimes (Num a) k = Num (a * k)"
| "ctimes NaN k = NaN"
| "ctimes PosInf k = (if k = 0 then NaN else if 0 < k then PosInf else NegInf)"
| "ctimes NegInf k = (if k = 0 then NaN else if 0 < k then NegInf else PosInf)"

text \<open>
  \<^verbatim>\<open>ffill\<close> on one column: a missing cell takes the last value seen above it; missing
  cells at the head of the column, with nothing above them, stay missing.
\<close>

fun ffill_col :: "cell \<Rightarrow> cell list \<Rightarrow> cell list" where
  "ffill_col prev [] = []"
| "ffill_col prev (c # cs) = (let v = (if isna c then prev else c) in v # ffill_col v cs)"

text \<open>Writing a column back into the frame, row by row.\<close>

definition assign :: "(row \<Rightarrow> cell \<Rightarrow> row) \<Rightarrow> table \<Rightarrow> cell list \<Rightarrow> table" where
  "assign upd data col = map (\<lambda>(r, c). upd r c) (zip data col)"

definition ffill_column :: "(row \<Rightarrow> cell) \<Rightarrow> (row \<Rightarrow> cell \<Rightarrow> row) \<Rightarrow> table \<Rightarrow> table" where
  "ffill_column get upd data = assign upd data (ffill_col NaN (map get data))"

definition ffill :: "table \<Rightarrow> table" where
  "ffill data =
     ffill_column Inflation (\<lambda>r c. r\<lparr>Inflation := c\<rparr>)
       (ffill_column GDP (\<lambda>r c. r\<lparr>GDP := c\<rparr>)
          (ffill_column Fed_Funds_Rate (\<lambda>r c. r\<lparr>Fed_Funds_Rate := c\<rparr>)
             (ffill_column National_Debt (\<lambda>r c. r\<lparr>National_Debt := c\<rparr>) data)))"

text \<open>\<^verbatim>\<open>dropna\<close>: a row with a missing cell in any column is dropped.\<close>

definition complete :: "row \<Rightarrow> bool" where
  "complete r \<longleftrightarrow>
     \<not> isna (National_Debt r) \<and> \<not> isna (Fed_Funds_Rate r) \<and> \<not> isna (GDP r) \<and> \<not> isna (Inflation r)"

definition dropna :: "table \<Rightarrow> table" where
  "dropna data = filter complete data"

text \<open>
  \<^verbatim>\<open>pct_change(periods)\<close> is the column divided by itself shifted down by
  \<^verbatim>\<open>periods\<close> rows, minus one. The shift puts NaN in the rows it opens at the head.
  (Depending on its version pandas forward-fills the column first; here the column
  comes out of \<^verbatim>\<open>dropna\<close> and has nothing to fill, see \<open>ffill_col_complete\<close>.)
\<close>

definition shift :: "nat \<Rightarrow> cell list \<Rightarrow> cell list" where
  "shift periods col =
     replicate (min periods (length col)) NaN @ take (length col - periods) col"

definition pct_change :: "nat \<Rightarrow> cell list \<Rightarrow> cell list" where
  "pct_change periods col = map (\<lambda>(c, s). cminus (cdiv c s) 1) (zip col (shift periods col))"

text \<open>
  \<^verbatim>\<open>load_economic_data\<close>, from the frame that \<^verbatim>\<open>web.DataReader\<close> returned (one row per
  date of the provider's answer, a missing observation as NaN). Naming the columns is
  positional and is the naming of the fields of \<open>row\<close>.
\<close>

definition load_economic_data :: "table \<Rightarrow> table" where
  "load_economic_data fetched =
     (let data = dropna (ffill fetched)
      in assign (\<lambda>r c. r\<lparr>Inflation := c\<rparr>) data
           (map (\<lambda>c. ctimes c 100) (pct_change 12 (map Inflation data))))"

section \<open>The year-range filter and its metrics\<close>

text \<open>
  \<^verbatim>\<open>data[(data.index.year >= year_range[0]) & (data.index.year <= year_range[1])]\<close>
\<close>

definition filtered_data :: "table \<Rightarrow> nat \<times> nat \<Rightarrow> table" where
  "filtered_data data year_range =
     filter (\<lambda>r. fst year_range \<le> year (date r) \<and> year (date r) \<le> snd year_range) data"

text \<open>
  The four \<^verbatim>\<open>st.metric\<close> calls, each reading \<^verbatim>\<open>.iloc[-1]\<close> of a column of the filtered
  table. The result is the four cells in the order displayed; their formatting as text is
  not modelled.
\<close>

definition display_metrics :: "table \<Rightarrow> py_error + cell list" where
  "display_metrics fd =
     (case last_item (map National_Debt fd) of Inl e \<Rightarrow> Inl e | Inr debt \<Rightarrow>
      case last_item (map Fed_Funds_Rate fd) of Inl e \<Rightarrow> Inl e | Inr fed \<Rightarrow>
      case last_item (map GDP fd) of Inl e \<Rightarrow> Inl e | Inr gdp \<Rightarrow>
      case last_item (map Inflation fd) of Inl e \<Rightarrow> Inl e | Inr infl \<Rightarrow>
        Inr [debt, fed, gdp, infl])"

section \<open>The animation\<close>

definition month :: "date \<Rightarrow> nat" where
  "month d = fst (snd d)"

definition day :: "date \<Rightarrow> nat" where
  "day d = snd (snd d)"

text \<open>
  \<^verbatim>\<open>pd.date_range(start=start_date, end=end_date, freq='QS')\<close>: the quarter starts
  (the first of January, April, July and October) from \<^verbatim>\<open>start_date\<close> to
  \<^verbatim>\<open>end_date\<close>, both included. Quarters are counted from year 0, four to a year.
\<close>

definition quarter_of :: "date \<Rightarrow> nat" where
  "quarter_of d = 4 * year d + (month d - 1) div 3"

definition quarter_start :: "nat \<Rightarrow> date" where
  "quarter_start q = (q div 4, 3 * (q mod 4) + 1, 1)"

definition is_quarter_start :: "date \<Rightarrow> bool" where
  "is_quarter_start d \<longleftrightarrow> day d = 1 \<and> (month d - 1) mod 3 = 0"

definition date_range_QS :: "date \<Rightarrow> date \<Rightarrow> date list" where
  "date_range_QS start_date end_date =
     (let first = (if is_quarter_start start_date then quarter_of start_date
                   else quarter_of start_date + 1)
      in map quarter_start [first ..< quarter_of end_date + 1])"

text \<open>
  \<^verbatim>\<open>step = max(1, len(dates) // (50 * animation_speed))\<close>. The slider gives a speed from
  1 to 10; the division by zero that a speed of 0 would be is raised in \<open>play_animation\<close>.
\<close>

definition step :: "nat \<Rightarrow> nat \<Rightarrow> nat" where
  "step n_dates animation_speed = max 1 (n_dates div (50 * animation_speed))"

text \<open>\<^verbatim>\<open>dates[::k]\<close> for a stride \<open>k\<close> of at least 1: the entries at positions 0, k, 2k, ...\<close>

definition every :: "nat \<Rightarrow> 'a list \<Rightarrow> 'a list" where
  "every k xs = map (\<lambda>j. xs ! (j * k)) [0 ..< (length xs + k - 1) div k]"

text \<open>
  \<^verbatim>\<open>progress = min(100, int((i * step) / len(dates) * 100))\<close>, in exact arithmetic.
\<close>

definition progress :: "nat \<Rightarrow> nat \<Rightarrow> nat \<Rightarrow> nat" where
  "progress i k n_dates = min 100 (nat \<lfloor>real (i * k) / real n_dates * 100\<rfloor>)"

text \<open>
  What the page shows: the chart in its placeholder, the four metrics (Debt, Fed rate,
  GDP, Inflation), every value written to the progress bar in the order written, and
  whether the completion message is out. The pause after a frame is not part of it.
\<close>

record ui =
  ui_chart :: "figure option"
  ui_metrics :: "cell list"
  ui_progress :: "nat list"
  ui_complete :: bool

definition metrics_of :: "row \<Rightarrow> cell list" where
  "metrics_of current_data =
     [National_Debt current_data, Fed_Funds_Rate current_data, GDP current_data,
      Inflation current_data]"

text \<open>One pass through the body of the animation loop, for frame number \<open>i\<close> at date \<open>d\<close>.\<close>

definition frame :: "table \<Rightarrow> nat \<Rightarrow> nat \<Rightarrow> nat \<Rightarrow> date \<Rightarrow> ui \<Rightarrow> py_error + ui" where
  "frame data k n_dates i d st =
     (case create_animated_chart data (Some d) of Inl e \<Rightarrow> Inl e | Inr chart \<Rightarrow>
      case last_item (truncated data d) of Inl e \<Rightarrow> Inl e | Inr current_data \<Rightarrow>
        Inr (st\<lparr>ui_chart := Some chart, ui_metrics := metrics_of current_data,
                ui_progress := ui_progress st @ [progress i k n_dates]\<rparr>))"

fun animation_loop :: "table \<Rightarrow> nat \<Rightarrow> nat \<Rightarrow> nat \<Rightarrow> date list \<Rightarrow> ui \<Rightarrow> py_error + ui" where
  "animation_loop data k n_dates i [] st = Inr st"
| "animation_loop data k n_dates i (d # ds) st =
     (case frame data k n_dates i d st of
        Inl e \<Rightarrow> Inl e
      | Inr st' \<Rightarrow> animation_loop data k n_dates (Suc i) ds st')"

text \<open>
  The block under \<^verbatim>\<open>if play_animation:\<close>: the frames, then the final chart with no
  cutoff, the metrics of the last row, the progress bar at 100 and the completion message.
\<close>

definition play_animation :: "table \<Rightarrow> nat \<Rightarrow> ui \<Rightarrow> py_error + ui" where
  "play_animation data animation_speed st =
     (if data = [] then Inl IndexError
      else
        let start_date = date (hd data);
            end_date = date (last data);
            dates = date_range_QS start_date end_date
        in if 50 * animation_speed = 0 then Inl ZeroDivisionError
           else
             let k = step (length dates) animation_speed
             in case animation_loop data k (length dates) 0 (every k dates)
                       (st\<lparr>ui_progress := [0]\<rparr>) of
                  Inl e \<Rightarrow> Inl e
                | Inr st' \<Rightarrow>
                    (case create_animated_chart data None of Inl e \<Rightarrow> Inl e | Inr chart \<Rightarrow>
                     case last_item data of Inl e \<Rightarrow> Inl e | Inr current_data \<Rightarrow>
                       Inr (st'\<lparr>ui_chart := Some chart, ui_metrics := metrics_of current_data,
                                ui_progress := ui_progress st' @ [100],
                                ui_complete := True\<rparr>)))"

definition idle :: ui where
  "idle = \<lparr>ui_chart = None, ui_metrics = [], ui_progress = [], ui_complete = False\<rparr>"

section \<open>Sample tables\<close>

definition obs :: "date \<Rightarrow> real \<Rightarrow> real \<Rightarrow> real \<Rightarrow> real \<Rightarrow> row" where
  "obs d debt fed gdp cpi =
     \<lparr>date = d, National_Debt = Num debt, Fed_Funds_Rate = Num fed, GDP = Num gdp,
      Inflation = Num cpi\<rparr>"

definition one_quarter :: table where
  "one_quarter = [obs (1970, 1, 1) 372 9 1051 38]"

definition two_quarters :: table where
  "two_quarters = [obs (1970, 1, 1) 372 9 1051 38, obs (1970, 4, 1) 370 8 1068 39]"

text \<open>
  A provider answer of fourteen months: the two quarterly series are missing between
  quarter starts, and the first month has no quarterly observation above it.
\<close>

definition fetched_sample :: table where
  "fetched_sample =
     \<lparr>date = (1969, 12, 1), National_Debt = NaN, Fed_Funds_Rate = Num 9, GDP = NaN,
      Inflation = Num 37\<rparr> #
     map (\<lambda>m. \<lparr>date = (1970, m, 1),
               National_Debt = (if m mod 3 = 1 then Num 370 else NaN),
               Fed_Funds_Rate = Num 8,
               GDP = (if m mod 3 = 1 then Num 1050 else NaN),
               Inflation = Num 40\<rparr>) [1..<13] @
     [\<lparr>date = (1971, 1, 1), National_Debt = Num 390, Fed_Funds_Rate = Num 4, GDP = Num 1130,
       Inflation = Num 42\<rparr>]"

text \<open>A price index level: a finite, positive number.\<close>

definition price :: "cell \<Rightarrow> bool" where
  "price c = (case c of Num a \<Rightarrow> 0 < a | _ \<Rightarrow> False)"

section \<open>The renderer\<close>

lemma fig_shapes_chart:
  "fig_shapes (create_combined_chart data) = map recession_band recessions"
  by (simp add: create_combined_chart_def update_layout_def add_vrect_def add_trace_def
      Figure_def recessions_def)

lemma fig_layout_chart: "fig_layout (create_combined_chart data) = Some chart_layout"
  by (simp add: create_combined_chart_def update_layout_def)

lemma trace_x_chart:
  "map trace_x (fig_traces (create_combined_chart data)) = replicate 4 (index data)"
  by (simp add: create_combined_chart_def update_layout_def add_vrect_def add_trace_def
      Figure_def recessions_def Scatter_def numeral_eq_Suc)

lemma trace_y_chart:
  "map trace_y (fig_traces (create_combined_chart data)) =
     [map National_Debt data, map GDP data, map Fed_Funds_Rate data, map Inflation data]"
  by (simp add: create_combined_chart_def update_layout_def add_vrect_def add_trace_def
      Figure_def recessions_def Scatter_def)

lemma animated_with_cutoff:
  "create_animated_chart data (Some d) = Inr (create_combined_chart data)"
  by (simp add: create_animated_chart_def default_end_date_def)

lemma animated_no_cutoff:
  "create_animated_chart data None =
     (if data = [] then Inl IndexError else Inr (create_combined_chart data))"
  by (simp add: create_animated_chart_def default_end_date_def last_item_def index_def)

lemma length_recessions: "length recessions = 7"
  by (simp add: recessions_def)

text \<open>
  C1 (the code at the failing input). The table has two quarters and the cutoff is the
  first of them. The claim asks for traces over the one row up to the cutoff; the chart
  that is returned draws both rows in each of its four traces.
\<close>

theorem cutoff_not_applied_to_traces:
  "map_sum id (map trace_x \<circ> fig_traces) (create_animated_chart two_quarters (Some (1970, 1, 1)))
     = Inr (replicate 4 [(1970, 1, 1), (1970, 4, 1)])
   \<and> map_sum id (map trace_y \<circ> fig_traces) (create_animated_chart two_quarters (Some (1970, 1, 1)))
     = Inr [[Num 372, Num 370], [Num 1051, Num 1068], [Num 9, Num 8], [Num 38, Num 39]]
   \<and> index (truncated two_quarters (1970, 1, 1)) = [(1970, 1, 1)]"
  by (simp add: animated_with_cutoff trace_x_chart trace_y_chart two_quarters_def obs_def
      index_def truncated_def)

text \<open>
  C4 (the code at the failing input). The cutoff lies before the only observation. The
  renderer returns a chart and raises nothing, as the claim says, but each of the four
  traces still holds the observation, where the claim asks for empty traces.
\<close>

theorem early_cutoff_traces_not_empty:
  "map_sum id (map trace_x \<circ> fig_traces) (create_animated_chart one_quarter (Some (1969, 10, 1)))
     = Inr (replicate 4 [(1970, 1, 1)])
   \<and> map_sum id (map trace_y \<circ> fig_traces) (create_animated_chart one_quarter (Some (1969, 10, 1)))
     = Inr [[Num 372], [Num 1051], [Num 9], [Num 38]]
   \<and> truncated one_quarter (1969, 10, 1) = []"
  by (simp add: animated_with_cutoff trace_x_chart trace_y_chart one_quarter_def obs_def
      index_def truncated_def)

text \<open>
  C9. For every table and every cutoff the renderer returns a chart whose shapes are the
  seven recession bands and whose layout is the fixed layout; a chart rendered with any
  other cutoff has the same shapes and layout, and so has the chart rendered with no
  cutoff, which exists when the table has a row.
\<close>

theorem cutoff_leaves_bands_and_layout:
  "\<exists>f. create_animated_chart data (Some cutoff) = Inr f
     \<and> fig_shapes f = map recession_band recessions \<and> length (fig_shapes f) = 7
     \<and> fig_layout f = Some chart_layout
     \<and> (\<exists>g. create_animated_chart data (Some cutoff') = Inr g
           \<and> fig_shapes g = fig_shapes f \<and> fig_layout g = fig_layout f)
     \<and> (data \<noteq> [] \<longrightarrow>
          (\<exists>g. create_animated_chart data None = Inr g
             \<and> fig_shapes g = fig_shapes f \<and> fig_layout g = fig_layout f))"
  by (simp add: animated_with_cutoff animated_no_cutoff fig_shapes_chart fig_layout_chart
      length_recessions)

theorem cutoff_leaves_bands_and_layout_witness:
  "two_quarters \<noteq> []
   \<and> (\<exists>f g. create_animated_chart two_quarters (Some (1970, 1, 1)) = Inr f
          \<and> create_animated_chart two_quarters None = Inr g
          \<and> length (fig_shapes f) = 7
          \<and> fig_shapes g = fig_shapes f \<and> fig_layout g = fig_layout f)"
proof -
  have ne: "two_quarters \<noteq> []"
    by (simp add: two_quarters_def)
  from cutoff_leaves_bands_and_layout [of two_quarters "(1970, 1, 1)" "(1970, 4, 1)"] ne
  show ?thesis by blast
qed

text \<open>
  C10. With the cutoff omitted, the renderer takes the last entry of the date index as
  the cutoff. On an empty table that lookup raises IndexError and no chart is returned;
  on every other table the default is the date of the last row and a chart is returned.
\<close>

theorem no_cutoff_needs_a_row:
  "default_end_date data None = (if data = [] then Inl IndexError else Inr (date (last data)))
   \<and> (create_animated_chart data None = Inl IndexError \<longleftrightarrow> data = [])
   \<and> (data \<noteq> [] \<longrightarrow> create_animated_chart data None = Inr (create_combined_chart data))"
  by (simp add: animated_no_cutoff default_end_date_def last_item_def index_def last_map)

theorem no_cutoff_needs_a_row_witness:
  "one_quarter \<noteq> []
   \<and> default_end_date one_quarter None = Inr (1970, 1, 1)
   \<and> create_animated_chart one_quarter None = Inr (create_combined_chart one_quarter)
   \<and> create_animated_chart [] None = Inl IndexError"
  using no_cutoff_needs_a_row [of one_quarter] no_cutoff_needs_a_row [of "[]"]
  by (simp add: one_quarter_def obs_def)

section \<open>The pipeline\<close>

lemma length_ffill_col: "length (ffill_col p cs) = length cs"
  by (induction cs arbitrary: p) (simp_all add: Let_def)

lemma length_assign: "length col = length data \<Longrightarrow> length (assign upd data col) = length data"
  by (simp add: assign_def)

lemma nth_assign:
  "length col = length data \<Longrightarrow> t < length data \<Longrightarrow> assign upd data col ! t = upd (data ! t) (col ! t)"
  by (simp add: assign_def)

lemma index_assign:
  "length col = length data \<Longrightarrow> (\<And>r c. date (upd r c) = date r) \<Longrightarrow>
   index (assign upd data col) = index data"
  by (simp add: index_def list_eq_iff_nth_eq length_assign nth_assign)

lemma length_ffill_column: "length (ffill_column get upd data) = length data"
  by (simp add: ffill_column_def length_assign length_ffill_col)

lemma index_ffill_column:
  "(\<And>r c. date (upd r c) = date r) \<Longrightarrow> index (ffill_column get upd data) = index data"
  by (simp add: ffill_column_def index_assign length_ffill_col)

lemma index_ffill: "index (ffill data) = index data"
  by (simp add: ffill_def index_ffill_column)

lemma length_ffill: "length (ffill data) = length data"
  by (simp add: ffill_def length_ffill_column)

lemma sorted_index_dropna:
  "sorted_wrt (<) (index data) \<Longrightarrow> sorted_wrt (<) (index (dropna data))"
  by (simp add: index_def dropna_def sorted_wrt_map sorted_wrt_filter)

lemma length_shift: "length (shift k col) = length col"
  by (simp add: shift_def)

lemma nth_shift:
  "t < length col \<Longrightarrow> shift k col ! t = (if t < k then NaN else col ! (t - k))"
  by (auto simp add: shift_def nth_append)

lemma length_pct_change: "length (pct_change k col) = length col"
  by (simp add: pct_change_def length_shift)

lemma nth_pct_change:
  "t < length col \<Longrightarrow>
   pct_change k col ! t = (if t < k then NaN else cminus (cdiv (col ! t) (col ! (t - k))) 1)"
proof -
  assume t: "t < length col"
  have c: "cdiv c NaN = NaN" for c by (cases c) simp_all
  from t show ?thesis
    by (simp add: pct_change_def length_shift nth_shift c)
qed

lemma length_load: "length (load_economic_data fetched) = length (dropna (ffill fetched))"
  by (simp add: load_economic_data_def Let_def length_assign length_pct_change)

lemma index_load: "index (load_economic_data fetched) = index (dropna (ffill fetched))"
  by (simp add: load_economic_data_def Let_def index_assign length_pct_change)

lemma nth_load:
  assumes "t < length (dropna (ffill fetched))"
  shows "load_economic_data fetched ! t =
     (dropna (ffill fetched) ! t)\<lparr>Inflation :=
        (if t < 12 then NaN
         else ctimes (cminus (cdiv (Inflation (dropna (ffill fetched) ! t))
                (Inflation (dropna (ffill fetched) ! (t - 12)))) 1) 100)\<rparr>"
  using assms
  by (simp add: load_economic_data_def Let_def nth_assign length_pct_change nth_pct_change)

lemma ffill_col_complete: "\<forall>c\<in>set cs. \<not> isna c \<Longrightarrow> ffill_col p cs = cs"
  by (induction cs arbitrary: p) (simp_all add: Let_def)

lemma rows_of_load:
  assumes "r \<in> set (load_economic_data fetched)"
  shows "\<exists>r' c. r' \<in> set (dropna (ffill fetched)) \<and> r = r'\<lparr>Inflation := c\<rparr>"
proof -
  from assms obtain r' c where "(r', c) \<in> set (zip (dropna (ffill fetched))
      (map (\<lambda>c. ctimes c 100) (pct_change 12 (map Inflation (dropna (ffill fetched))))))"
    and "r = r'\<lparr>Inflation := c\<rparr>"
    by (auto simp add: load_economic_data_def Let_def assign_def)
  then show ?thesis by (blast dest: set_zip_leftD)
qed

lemma dropna_complete: "r \<in> set (dropna data) \<Longrightarrow> complete r"
  by (simp add: dropna_def)

lemma map_assign_same:
  "length col = length data \<Longrightarrow> (\<And>r c. get (upd r c) = c) \<Longrightarrow> map get (assign upd data col) = col"
  by (simp add: list_eq_iff_nth_eq length_assign nth_assign)

lemma map_assign_other:
  "length col = length data \<Longrightarrow> (\<And>r c. get (upd r c) = get r) \<Longrightarrow>
   map get (assign upd data col) = map get data"
  by (simp add: list_eq_iff_nth_eq length_assign nth_assign)

lemma Inflation_ffill: "map Inflation (ffill data) = ffill_col NaN (map Inflation data)"
  by (simp add: ffill_def ffill_column_def map_assign_same map_assign_other length_ffill_col
      length_assign)

lemma set_ffill_col: "set (ffill_col p cs) \<subseteq> insert p (set cs)"
  by (induction cs arbitrary: p) (auto simp add: Let_def)

lemma price_clean:
  assumes "\<forall>r\<in>set fetched. isna (Inflation r) \<or> price (Inflation r)"
    and "r \<in> set (dropna (ffill fetched))"
  shows "price (Inflation r)"
proof -
  from assms(2) have r: "r \<in> set (ffill fetched)" "\<not> isna (Inflation r)"
    by (simp_all add: dropna_def complete_def)
  then have "Inflation r \<in> set (map Inflation (ffill fetched))" by simp
  then have "Inflation r \<in> insert NaN (set (map Inflation fetched))"
    using set_ffill_col [of NaN "map Inflation fetched"] by (auto simp add: Inflation_ffill)
  with r(2) assms(1) show ?thesis by (auto simp add: isna_def)
qed

lemma pct_of_prices:
  assumes "price a" "price b"
  shows "\<not> isna (ctimes (cminus (cdiv a b) 1) 100)"
  using assms by (cases a; cases b) (simp_all add: price_def isna_def)

text \<open>
  C3. The loaded table has the rows of the cleaned frame (forward-filled, incomplete rows
  dropped), with their dates. In rows 0 to 11 its Inflation cell is NaN; in every row
  \<open>t\<close> from 12 on it is the cleaned price-index column at \<open>t\<close> over the same column at
  \<open>t - 12\<close>, minus 1, times 100, which for finite values with a nonzero divisor is the
  real number \<open>(a / b - 1) * 100\<close>.
\<close>

theorem inflation_is_yoy_change:
  "length (load_economic_data fetched) = length (dropna (ffill fetched))
   \<and> (\<forall>t < length (dropna (ffill fetched)).
         date (load_economic_data fetched ! t) = date (dropna (ffill fetched) ! t)
       \<and> (t < 12 \<longrightarrow> Inflation (load_economic_data fetched ! t) = NaN)
       \<and> (12 \<le> t \<longrightarrow>
            Inflation (load_economic_data fetched ! t) =
              ctimes (cminus (cdiv (Inflation (dropna (ffill fetched) ! t))
                                   (Inflation (dropna (ffill fetched) ! (t - 12)))) 1) 100)
       \<and> (\<forall>a b. 12 \<le> t \<and> Inflation (dropna (ffill fetched) ! t) = Num a
                \<and> Inflation (dropna (ffill fetched) ! (t - 12)) = Num b \<and> b \<noteq> 0 \<longrightarrow>
            Inflation (load_economic_data fetched ! t) = Num ((a / b - 1) * 100)))"
  by (simp add: length_load nth_load)

theorem inflation_is_yoy_change_witness:
  "12 < length (dropna (ffill fetched_sample))
   \<and> Inflation (dropna (ffill fetched_sample) ! 12) = Num 42
   \<and> Inflation (dropna (ffill fetched_sample) ! 0) = Num 40
   \<and> Inflation (load_economic_data fetched_sample ! 12) = Num ((42 / 40 - 1) * 100)
   \<and> Inflation (load_economic_data fetched_sample ! 0) = NaN"
proof -
  have len: "length (dropna (ffill fetched_sample)) = 13"
    by code_simp
  have a: "Inflation (dropna (ffill fetched_sample) ! 12) = Num 42"
    by code_simp
  have b: "Inflation (dropna (ffill fetched_sample) ! 0) = Num 40"
    by code_simp
  from inflation_is_yoy_change [of fetched_sample] len
  have "\<forall>t<13. (t < 12 \<longrightarrow> Inflation (load_economic_data fetched_sample ! t) = NaN)
       \<and> (\<forall>a b. 12 \<le> t \<and> Inflation (dropna (ffill fetched_sample) ! t) = Num a
                \<and> Inflation (dropna (ffill fetched_sample) ! (t - 12)) = Num b \<and> b \<noteq> 0 \<longrightarrow>
            Inflation (load_economic_data fetched_sample ! t) = Num ((a / b - 1) * 100))"
    by simp
  then have "Inflation (load_economic_data fetched_sample ! 0) = NaN"
    and "Inflation (dropna (ffill fetched_sample) ! 12) = Num 42
           \<and> Inflation (dropna (ffill fetched_sample) ! (12 - 12)) = Num 40 \<and> (40::real) \<noteq> 0 \<longrightarrow>
         Inflation (load_economic_data fetched_sample ! 12) = Num ((42 / 40 - 1) * 100)"
    by (simp, fastforce)
  with len a b show ?thesis by simp
qed

text \<open>
  C2 (the claim at a concrete table). The provider's answer has two rows with increasing
  dates and no missing cell. In the loaded table both Inflation cells are missing.
\<close>

theorem inflation_head_is_missing:
  "sorted_wrt (<) (index two_quarters) \<and> list_all complete two_quarters
   \<and> index (load_economic_data two_quarters) = [(1970, 1, 1), (1970, 4, 1)]
   \<and> map Inflation (load_economic_data two_quarters) = [NaN, NaN]"
  by code_simp

text \<open>
  C2, amended. When the dates of the provider's answer are strictly increasing, the
  dates of the loaded table are strictly increasing and free of duplicates, and no cell
  of the National Debt, Fed Funds Rate and GDP columns is missing. The Inflation cell
  is missing in rows 0 to 11; from row 12 on it is present when every price-index level
  the provider reported is a positive number.
\<close>

theorem observation_table_invariant:
  assumes "sorted_wrt (<) (index fetched)"
  shows "sorted_wrt (<) (index (load_economic_data fetched))
    \<and> distinct (index (load_economic_data fetched))
    \<and> (\<forall>r\<in>set (load_economic_data fetched).
          \<not> isna (National_Debt r) \<and> \<not> isna (Fed_Funds_Rate r) \<and> \<not> isna (GDP r))
    \<and> (\<forall>t<length (load_economic_data fetched).
          t < 12 \<longrightarrow> isna (Inflation (load_economic_data fetched ! t)))
    \<and> ((\<forall>r\<in>set fetched. isna (Inflation r) \<or> price (Inflation r)) \<longrightarrow>
        (\<forall>t<length (load_economic_data fetched).
           12 \<le> t \<longrightarrow> \<not> isna (Inflation (load_economic_data fetched ! t))))"
proof -
  let ?clean = "dropna (ffill fetched)"
  have "sorted_wrt (<) (index (ffill fetched))"
    using assms by (simp add: index_ffill)
  then have sorted: "sorted_wrt (<) (index (load_economic_data fetched))"
    by (simp add: index_load sorted_index_dropna)
  then have dist: "distinct (index (load_economic_data fetched))"
    by (simp add: strict_sorted_iff)
  have others: "\<not> isna (National_Debt r) \<and> \<not> isna (Fed_Funds_Rate r) \<and> \<not> isna (GDP r)"
    if "r \<in> set (load_economic_data fetched)" for r
  proof -
    from rows_of_load [OF that] obtain r' c where "r' \<in> set ?clean" "r = r'\<lparr>Inflation := c\<rparr>"
      by blast
    then show ?thesis using dropna_complete [of r' "ffill fetched"] by (simp add: complete_def)
  qed
  have head: "isna (Inflation (load_economic_data fetched ! t))"
    if "t < length (load_economic_data fetched)" "t < 12" for t
    using that by (simp add: length_load nth_load isna_def)
  have tail: "\<not> isna (Inflation (load_economic_data fetched ! t))"
    if p: "\<forall>r\<in>set fetched. isna (Inflation r) \<or> price (Inflation r)"
      and t: "t < length (load_economic_data fetched)" "12 \<le> t" for t
  proof -
    from t have "t < length ?clean" "t - 12 < length ?clean" by (simp_all add: length_load)
    then have "price (Inflation (?clean ! t))" "price (Inflation (?clean ! (t - 12)))"
      using price_clean [OF p] by simp_all
    then show ?thesis using t by (simp add: length_load nth_load pct_of_prices)
  qed
  from sorted dist others head tail show ?thesis by blast
qed

theorem observation_table_invariant_witness:
  "sorted_wrt (<) (index fetched_sample)
   \<and> list_all (\<lambda>r. isna (Inflation r) \<or> price (Inflation r)) fetched_sample
   \<and> length (load_economic_data fetched_sample) = 13
   \<and> sorted_wrt (<) (index (load_economic_data fetched_sample))
   \<and> isna (Inflation (load_economic_data fetched_sample ! 11))
   \<and> \<not> isna (Inflation (load_economic_data fetched_sample ! 12))"
proof -
  have s: "sorted_wrt (<) (index fetched_sample)"
    by code_simp
  have p: "\<forall>r\<in>set fetched_sample. isna (Inflation r) \<or> price (Inflation r)"
    by code_simp
  have len: "length (load_economic_data fetched_sample) = 13"
    by code_simp
  from observation_table_invariant [OF s] s p len show ?thesis by (simp add: list_all_iff)
qed

section \<open>The metrics\<close>

lemma display_metrics_eq:
  "display_metrics fd = (if fd = [] then Inl IndexError else Inr (metrics_of (last fd)))"
  by (simp add: display_metrics_def last_item_def metrics_of_def last_map)

lemma frame_empty: "truncated data d = [] \<Longrightarrow> frame data k n i d st = Inl IndexError"
  by (simp add: frame_def animated_with_cutoff last_item_def)

text \<open>
  C5 (the claim at a concrete table). The table has one row, of 1970, and the year
  range is 1971 to 1971: the filter selects no row and the metrics raise IndexError.
\<close>

theorem metrics_raise_on_empty_filter:
  "filtered_data one_quarter (1971, 1971) = []
   \<and> display_metrics (filtered_data one_quarter (1971, 1971)) = Inl IndexError"
  by (simp add: filtered_data_def one_quarter_def obs_def year_def display_metrics_def
      last_item_def)

text \<open>
  C5, amended. Given a cutoff the renderer returns a chart for every table and every
  cutoff, also one that selects no row. The four metrics of the year-range filter are
  the cells of the last selected row when the filter selects a row, and raise IndexError
  when it selects none; so do the metrics of an animation frame whose cutoff selects no
  row.
\<close>

theorem zero_rows_chart_and_metrics:
  "(\<exists>f. create_animated_chart data (Some cutoff) = Inr f)
   \<and> (filtered_data data year_range \<noteq> [] \<longrightarrow>
        display_metrics (filtered_data data year_range)
          = Inr (metrics_of (last (filtered_data data year_range))))
   \<and> (filtered_data data year_range = [] \<longrightarrow>
        display_metrics (filtered_data data year_range) = Inl IndexError)
   \<and> (truncated data cutoff = [] \<longrightarrow> frame data k n i cutoff st = Inl IndexError)"
  by (simp add: animated_with_cutoff display_metrics_eq frame_empty)

theorem zero_rows_chart_and_metrics_witness:
  "filtered_data two_quarters (1970, 1970) \<noteq> []
   \<and> display_metrics (filtered_data two_quarters (1970, 1970)) = Inr [Num 370, Num 8, Num 1068, Num 39]
   \<and> filtered_data two_quarters (1971, 1971) = []
   \<and> truncated two_quarters (1969, 10, 1) = []
   \<and> display_metrics (filtered_data two_quarters (1971, 1971)) = Inl IndexError
   \<and> frame two_quarters 1 2 0 (1969, 10, 1) idle = Inl IndexError"
proof -
  have a: "filtered_data two_quarters (1970, 1970) = two_quarters"
    by (simp add: filtered_data_def two_quarters_def obs_def year_def)
  have b: "filtered_data two_quarters (1971, 1971) = []"
    by (simp add: filtered_data_def two_quarters_def obs_def year_def)
  have c: "truncated two_quarters (1969, 10, 1) = []"
    by (simp add: truncated_def two_quarters_def obs_def)
  have d: "two_quarters \<noteq> []" "metrics_of (last two_quarters) = [Num 370, Num 8, Num 1068, Num 39]"
    by (simp_all add: two_quarters_def obs_def metrics_of_def)
  from zero_rows_chart_and_metrics [of two_quarters "(1969, 10, 1)" "(1970, 1970)" 1 2 0 idle]
    zero_rows_chart_and_metrics [of two_quarters "(1969, 10, 1)" "(1971, 1971)" 1 2 0 idle]
    a b c d
  show ?thesis by simp
qed

section \<open>The animation run\<close>

lemma step_ge_1: "1 \<le> step n s"
  by (simp add: step_def)

lemma step_antimono: "1 \<le> s \<Longrightarrow> s \<le> s' \<Longrightarrow> step n s' \<le> step n s"
  unfolding step_def
  by (intro max.mono order_refl div_le_mono2) simp_all

lemma length_every: "length (every k xs) = (length xs + k - 1) div k"
  by (simp add: every_def)

lemma ceil_div_antimono:
  assumes "1 \<le> k" "k \<le> (k'::nat)"
  shows "(n + k' - 1) div k' \<le> (n + k - 1) div k"
proof (cases n)
  case 0
  with assms show ?thesis by simp
next
  case (Suc m)
  have "(m + k') div k' = m div k' + 1" "(m + k) div k = m div k + 1"
    using assms by simp_all
  moreover have "m div k' \<le> m div k"
    using assms by (intro div_le_mono2) simp_all
  ultimately show ?thesis using Suc by simp
qed

lemma every_index_in_range:
  assumes "j < (n + k - 1) div k" "1 \<le> (k::nat)"
  shows "j * k < n"
proof -
  from assms have "Suc j \<le> (n + k - 1) div k" by simp
  then have "Suc j * k \<le> (n + k - 1) div k * k"
    by (rule mult_le_mono1)
  also have "\<dots> \<le> n + k - 1" by simp
  finally show ?thesis using assms by simp
qed

lemma set_every: "1 \<le> k \<Longrightarrow> set (every k xs) \<subseteq> set xs"
  by (auto simp add: every_def every_index_in_range)

lemma quarter_start_ge:
  assumes "(if is_quarter_start s then quarter_of s else quarter_of s + 1) \<le> q"
  shows "s \<le> quarter_start q"
proof -
  obtain y m d where s: "s = (y, m, d)" by (cases s)
  show ?thesis
  proof (cases "y < q div 4")
    case True
    then show ?thesis by (simp add: s quarter_start_def)
  next
    case False
    have "4 * y \<le> q"
      using assms by (simp add: s quarter_of_def year_def split: if_splits)
    with False have y: "q div 4 = y" by simp
    then have q: "q = 4 * y + q mod 4" by (metis mult_div_mod_eq)
    show ?thesis
    proof (cases "is_quarter_start s")
      case True
      with assms q have "(m - 1) div 3 \<le> q mod 4"
        by (simp add: s quarter_of_def year_def month_def)
      moreover from True have "d = 1" "(m - 1) mod 3 = 0"
        by (simp_all add: s is_quarter_start_def day_def month_def)
      ultimately have "m \<le> 3 * (q mod 4) + 1" by presburger
      with y \<open>d = 1\<close> show ?thesis by (simp add: s quarter_start_def)
    next
      case False
      with assms q have "(m - 1) div 3 + 1 \<le> q mod 4"
        by (simp add: s quarter_of_def year_def month_def)
      then have "m < 3 * (q mod 4) + 1" by presburger
      with y show ?thesis by (simp add: s quarter_start_def)
    qed
  qed
qed

lemma date_range_ge_start: "d \<in> set (date_range_QS s e) \<Longrightarrow> s \<le> d"
  by (auto simp add: date_range_QS_def Let_def intro!: quarter_start_ge)

lemma progress_mono: "i \<le> j \<Longrightarrow> progress i k n \<le> progress j k n"
  unfolding progress_def
  by (intro min.mono order_refl nat_mono floor_mono mult_right_mono divide_right_mono)
     (simp_all add: mult_right_mono)

lemma progress_le_100: "progress i k n \<le> 100"
  by (simp add: progress_def)

lemma sorted_progress: "sorted (map (\<lambda>j. progress j k n) [i ..< m])"
  by (simp add: sorted_map sorted_wrt_iff_nth_less progress_mono)

lemma frame_ok:
  assumes "data \<noteq> []" "date (hd data) \<le> d"
  shows "\<exists>st'. frame data k n i d st = Inr st'
           \<and> ui_progress st' = ui_progress st @ [progress i k n]"
proof -
  from assms have "hd data \<in> set (truncated data d)" by (simp add: truncated_def)
  then have "truncated data d \<noteq> []" by (metis empty_iff empty_set)
  then show ?thesis
    by (simp add: frame_def create_animated_chart_def default_end_date_def last_item_def)
qed

lemma animation_loop_ok:
  assumes "data \<noteq> []" "\<forall>d\<in>set ds. date (hd data) \<le> d"
  shows "\<exists>st'. animation_loop data k n i ds st = Inr st'
           \<and> ui_progress st' = ui_progress st @ map (\<lambda>j. progress j k n) [i ..< i + length ds]"
  using assms(2)
proof (induction ds arbitrary: i st)
  case Nil
  then show ?case by simp
next
  case (Cons d ds)
  from Cons.prems assms(1) obtain st1 where
    st1: "frame data k n i d st = Inr st1" "ui_progress st1 = ui_progress st @ [progress i k n]"
    using frame_ok [of data d k n i st] by auto
  from Cons.prems have "\<forall>d\<in>set ds. date (hd data) \<le> d" by simp
  from Cons.IH [OF this, of "Suc i" st1] obtain st2 where
    st2: "animation_loop data k n (Suc i) ds st1 = Inr st2"
      "ui_progress st2 = ui_progress st1 @ map (\<lambda>j. progress j k n) [Suc i ..< Suc i + length ds]"
    by auto
  have "[i ..< i + length (d # ds)] = i # [Suc i ..< Suc i + length ds]"
    using upt_conv_Cons [of i "i + length (d # ds)"] by simp
  with st1 st2 show ?case by simp
qed

lemma length_date_range:
  "length (date_range_QS s e) =
     quarter_of e + 1 - (if is_quarter_start s then quarter_of s else quarter_of s + 1)"
  unfolding date_range_QS_def Let_def length_map length_upt by simp

text \<open>
  C6 (the claim at a concrete run). Two hundred quarterly dates, 1970 to 2019: at speed 1
  the stride is 4 and the run has 50 frames, at speed 10 the stride is 1 and the run has
  200 frames. The higher speed gives more frames, not fewer.
\<close>

theorem faster_speed_more_frames:
  "length (date_range_QS (1970, 1, 1) (2019, 10, 1)) = 200
   \<and> step 200 1 = 4 \<and> step 200 10 = 1
   \<and> length (every (step 200 1) (date_range_QS (1970, 1, 1) (2019, 10, 1))) = 50
   \<and> length (every (step 200 10) (date_range_QS (1970, 1, 1) (2019, 10, 1))) = 200"
  by (simp add: length_every length_date_range quarter_of_def is_quarter_start_def year_def
      month_def day_def step_def)

text \<open>
  C6, amended. For every sequence of dates and every speed from 1 to 10 the stride is
  the larger of 1 and the whole quotient of the number of dates by 50 times the speed,
  so it is at least 1; at any higher speed the stride is the same or smaller and the
  run has the same number of frames or more.
\<close>

theorem stride_from_speed:
  assumes "1 \<le> animation_speed" "animation_speed \<le> 10"
  shows "step (length dates) animation_speed = max 1 (length dates div (50 * animation_speed))
    \<and> 1 \<le> step (length dates) animation_speed
    \<and> (\<forall>faster. animation_speed \<le> faster \<longrightarrow>
          step (length dates) faster \<le> step (length dates) animation_speed
        \<and> length (every (step (length dates) animation_speed) dates)
            \<le> length (every (step (length dates) faster) dates))"
proof -
  have "length (every (step (length dates) animation_speed) dates)
      \<le> length (every (step (length dates) faster) dates)"
    if "animation_speed \<le> faster" for faster
    unfolding length_every
    using assms(1) that by (intro ceil_div_antimono step_ge_1 step_antimono)
  with assms(1) show ?thesis
    by (simp add: step_antimono step_ge_1) (simp add: step_def)
qed

theorem stride_from_speed_witness:
  "(1::nat) \<le> 1 \<and> (1::nat) \<le> 10
   \<and> step (length (date_range_QS (1970, 1, 1) (2019, 10, 1))) 1 = 4
   \<and> step (length (date_range_QS (1970, 1, 1) (2019, 10, 1))) 10
       \<le> step (length (date_range_QS (1970, 1, 1) (2019, 10, 1))) 1
   \<and> length (every (step (length (date_range_QS (1970, 1, 1) (2019, 10, 1))) 1)
               (date_range_QS (1970, 1, 1) (2019, 10, 1)))
       \<le> length (every (step (length (date_range_QS (1970, 1, 1) (2019, 10, 1))) 10)
               (date_range_QS (1970, 1, 1) (2019, 10, 1)))"
proof -
  have n: "length (date_range_QS (1970, 1, 1) (2019, 10, 1)) = 200"
    by (simp add: length_date_range quarter_of_def is_quarter_start_def year_def month_def day_def)
  have "(1::nat) \<le> 1" "(1::nat) \<le> 10" by simp_all
  from stride_from_speed [OF this, of "date_range_QS (1970, 1, 1) (2019, 10, 1)"]
  have "step (length (date_range_QS (1970, 1, 1) (2019, 10, 1))) 1
          = max 1 (length (date_range_QS (1970, 1, 1) (2019, 10, 1)) div (50 * 1))"
    and "\<forall>faster\<ge>1. step (length (date_range_QS (1970, 1, 1) (2019, 10, 1))) faster
          \<le> step (length (date_range_QS (1970, 1, 1) (2019, 10, 1))) 1
        \<and> length (every (step (length (date_range_QS (1970, 1, 1) (2019, 10, 1))) 1)
               (date_range_QS (1970, 1, 1) (2019, 10, 1)))
          \<le> length (every (step (length (date_range_QS (1970, 1, 1) (2019, 10, 1))) faster)
               (date_range_QS (1970, 1, 1) (2019, 10, 1)))"
    by blast+
  then show ?thesis using n by simp
qed

text \<open>
  C7. On a table with at least one row and at a speed of at least 1 the animation runs to
  its end without an error; the values written to the progress bar, from the 0 it is
  created with through every frame to the completion step, never decrease, and the last
  of them is 100.
\<close>

theorem progress_monotone_to_100:
  assumes "data \<noteq> []" "1 \<le> animation_speed"
  shows "\<exists>st'. play_animation data animation_speed st = Inr st'
           \<and> sorted (ui_progress st') \<and> ui_progress st' \<noteq> [] \<and> last (ui_progress st') = 100
           \<and> ui_complete st'"
proof -
  define dates where "dates = date_range_QS (date (hd data)) (date (last data))"
  define k where "k = step (length dates) animation_speed"
  have k: "1 \<le> k" by (simp add: k_def step_def)
  have "\<forall>d\<in>set (every k dates). date (hd data) \<le> d"
    using set_every [OF k, of dates] date_range_ge_start unfolding dates_def by blast
  from animation_loop_ok [OF assms(1) this, of k "length dates" 0 "st\<lparr>ui_progress := [0]\<rparr>"]
  obtain st1 where st1:
    "animation_loop data k (length dates) 0 (every k dates) (st\<lparr>ui_progress := [0]\<rparr>) = Inr st1"
    "ui_progress st1 = 0 # map (\<lambda>j. progress j k (length dates)) [0 ..< length (every k dates)]"
    by auto
  let ?final = "st1\<lparr>ui_chart := Some (create_combined_chart data),
      ui_metrics := metrics_of (last data), ui_progress := ui_progress st1 @ [100],
      ui_complete := True\<rparr>"
  have run: "play_animation data animation_speed st = Inr ?final"
    using assms st1(1)
    by (simp add: play_animation_def Let_def dates_def [symmetric] k_def [symmetric]
        create_animated_chart_def default_end_date_def last_item_def index_def)
  have "sorted (ui_progress st1 @ [100])"
    by (simp add: st1(2) sorted_append sorted_progress progress_le_100)
  with run show ?thesis by simp
qed

theorem progress_monotone_to_100_witness:
  "two_quarters \<noteq> [] \<and> (1::nat) \<le> 5
   \<and> (\<exists>st'. play_animation two_quarters 5 idle = Inr st'
          \<and> sorted (ui_progress st') \<and> last (ui_progress st') = 100)"
proof -
  have ne: "two_quarters \<noteq> []" by (simp add: two_quarters_def)
  have five: "(1::nat) \<le> 5" by simp
  from progress_monotone_to_100 [OF ne five, of idle] ne show ?thesis by auto
qed

end
